theory Spec2Isabelle
  imports Complex_Main
begin

section \<open>Binary floating point\<close>

text \<open>
  The scripts compute with Python floats and NumPy arrays of type float64, and cast the
  samples to float32. A finite float is modelled by the real number it stands for; every
  arithmetic operation rounds its exact result to the nearest float, ties to the even
  significand, with gradual underflow, and overflows to an infinity. The sign of a zero
  is not modelled: no operation of the program tells the two zeros apart.
\<close>

definition pow2 :: "int \<Rightarrow> real" where
  "pow2 k = (if 0 \<le> k then 2 ^ nat k else 1 / 2 ^ nat (- k))"

text \<open>Rounding to the nearest integer, ties to even.\<close>

definition rne :: "real \<Rightarrow> int" where
  "rne y =
     (let n = \<lfloor>y\<rfloor>; r = y - of_int n
      in if r < 1 / 2 then n else if 1 / 2 < r then n + 1 else if even n then n else n + 1)"

text \<open>The binary exponent of a number other than 0: \<open>2 ^ expo x \<le> |x| < 2 ^ (expo x + 1)\<close>.\<close>

definition expo :: "real \<Rightarrow> int" where
  "expo x = \<lfloor>log 2 \<bar>x\<bar>\<rfloor>"

text \<open>
  The unit in the last place of \<open>x\<close> in a format with \<open>p\<close> significant bits whose
  smallest normal number is \<open>2 ^ emin\<close>, and rounding to that format.
\<close>

definition ulp :: "int \<Rightarrow> int \<Rightarrow> real \<Rightarrow> real" where
  "ulp p emin x = pow2 (max (expo x) emin - p + 1)"

definition round_to :: "int \<Rightarrow> int \<Rightarrow> real \<Rightarrow> real" where
  "round_to p emin x =
     (if x = 0 then 0 else of_int (rne (x / ulp p emin x)) * ulp p emin x)"

definition fl64 :: "real \<Rightarrow> real" where
  "fl64 = round_to 53 (- 1022)"

definition fl32 :: "real \<Rightarrow> real" where
  "fl32 = round_to 24 (- 126)"

datatype pyfloat = Fin real | PInf | NInf | NaN

text \<open>A rounded result that has left the range of the format is an infinity.\<close>

definition overflow :: "real \<Rightarrow> real \<Rightarrow> pyfloat" where
  "overflow huge y = (if huge \<le> y then PInf else if y \<le> - huge then NInf else Fin y)"

definition to64 :: "real \<Rightarrow> pyfloat" where
  "to64 x = overflow (pow2 1024) (fl64 x)"

definition to32 :: "real \<Rightarrow> pyfloat" where
  "to32 x = overflow (pow2 128) (fl32 x)"

text \<open>An infinity times a finite factor \<open>x\<close>: \<open>inf * 0\<close> is nan.\<close>

definition inf_times :: "real \<Rightarrow> pyfloat" where
  "inf_times x = (if x = 0 then NaN else if 0 < x then PInf else NInf)"

fun fneg :: "pyfloat \<Rightarrow> pyfloat" where
  "fneg (Fin x) = Fin (- x)"
| "fneg PInf = NInf"
| "fneg NInf = PInf"
| "fneg NaN = NaN"

fun fmul :: "pyfloat \<Rightarrow> pyfloat \<Rightarrow> pyfloat" where
  "fmul (Fin x) (Fin y) = to64 (x * y)"
| "fmul (Fin x) PInf = inf_times x"
| "fmul (Fin x) NInf = inf_times (- x)"
| "fmul PInf (Fin y) = inf_times y"
| "fmul NInf (Fin y) = inf_times (- y)"
| "fmul PInf PInf = PInf"
| "fmul PInf NInf = NInf"
| "fmul NInf PInf = NInf"
| "fmul NInf NInf = PInf"
| "fmul NaN _ = NaN"
| "fmul _ NaN = NaN"

fun fadd :: "pyfloat \<Rightarrow> pyfloat \<Rightarrow> pyfloat" where
  "fadd (Fin x) (Fin y) = to64 (x + y)"
| "fadd (Fin x) PInf = PInf"
| "fadd (Fin x) NInf = NInf"
| "fadd PInf (Fin y) = PInf"
| "fadd NInf (Fin y) = NInf"
| "fadd PInf PInf = PInf"
| "fadd PInf NInf = NaN"
| "fadd NInf PInf = NaN"
| "fadd NInf NInf = NInf"
| "fadd NaN _ = NaN"
| "fadd _ NaN = NaN"

definition fsub :: "pyfloat \<Rightarrow> pyfloat \<Rightarrow> pyfloat" where
  "fsub a b = fadd a (fneg b)"

fun ffloor :: "pyfloat \<Rightarrow> pyfloat" where
  "ffloor (Fin x) = Fin (of_int \<lfloor>x\<rfloor>)"
| "ffloor PInf = PInf"
| "ffloor NInf = NInf"
| "ffloor NaN = NaN"

fun fsign :: "pyfloat \<Rightarrow> pyfloat" where
  "fsign (Fin x) = Fin (sgn x)"
| "fsign PInf = Fin 1"
| "fsign NInf = Fin (- 1)"
| "fsign NaN = NaN"

text \<open>\<^verbatim>\<open>.astype(np.float32)\<close>\<close>

fun astype32 :: "pyfloat \<Rightarrow> pyfloat" where
  "astype32 (Fin x) = to32 x"
| "astype32 PInf = PInf"
| "astype32 NInf = NInf"
| "astype32 NaN = NaN"

text \<open>The comparisons \<^verbatim>\<open>a <= b\<close>, \<^verbatim>\<open>x > 0\<close> and \<^verbatim>\<open>x <= 0\<close>; all are false on nan.\<close>

fun fle :: "pyfloat \<Rightarrow> pyfloat \<Rightarrow> bool" where
  "fle (Fin x) (Fin y) = (x \<le> y)"
| "fle NaN _ = False"
| "fle _ NaN = False"
| "fle NInf _ = True"
| "fle _ PInf = True"
| "fle PInf _ = False"
| "fle _ NInf = False"

fun gt_zero :: "pyfloat \<Rightarrow> bool" where
  "gt_zero (Fin x) = (0 < x)"
| "gt_zero PInf = True"
| "gt_zero NInf = False"
| "gt_zero NaN = False"

fun le_zero :: "pyfloat \<Rightarrow> bool" where
  "le_zero (Fin x) = (x \<le> 0)"
| "le_zero PInf = False"
| "le_zero NInf = True"
| "le_zero NaN = False"

text \<open>
  The sine and the arc sine of the C library are not fixed by the program: they are a
  parameter of the model. NumPy returns nan for the sine of an infinity and for the arc
  sine of a number outside \<open>[-1, 1]\<close>.
\<close>

record libm =
  sin64 :: "real \<Rightarrow> real"
  asin64 :: "real \<Rightarrow> real"

fun fsin :: "libm \<Rightarrow> pyfloat \<Rightarrow> pyfloat" where
  "fsin lm (Fin x) = Fin (sin64 lm x)"
| "fsin lm _ = NaN"

fun farcsin :: "libm \<Rightarrow> pyfloat \<Rightarrow> pyfloat" where
  "farcsin lm (Fin y) = (if \<bar>y\<bar> \<le> 1 then Fin (asin64 lm y) else NaN)"
| "farcsin lm _ = NaN"

text \<open>\<^verbatim>\<open>np.pi\<close>, the float nearest to the number pi.\<close>

definition np_pi :: real where
  "np_pi = 884279719003555 / 2 ^ 48"

section \<open>Errors and conversions\<close>

datatype py_error = ValueError | OverflowError | ZeroDivisionError

text \<open>
  Python's \<^verbatim>\<open>int(x)\<close> on a float truncates towards zero; it raises OverflowError on
  an infinity and ValueError on nan.
\<close>

definition py_int :: "real \<Rightarrow> int" where
  "py_int x = (if 0 \<le> x then \<lfloor>x\<rfloor> else \<lceil>x\<rceil>)"

fun int_of_float :: "pyfloat \<Rightarrow> py_error + int" where
  "int_of_float (Fin x) = Inr (py_int x)"
| "int_of_float PInf = Inl OverflowError"
| "int_of_float NInf = Inl OverflowError"
| "int_of_float NaN = Inl ValueError"

text \<open>Python's \<^verbatim>\<open>n / x\<close> for a number \<open>n\<close> and a float \<open>x\<close>.\<close>

fun py_truediv :: "real \<Rightarrow> pyfloat \<Rightarrow> py_error + pyfloat" where
  "py_truediv n (Fin x) = (if x = 0 then Inl ZeroDivisionError else Inr (to64 (n / x)))"
| "py_truediv n PInf = Inr (Fin 0)"
| "py_truediv n NInf = Inr (Fin 0)"
| "py_truediv n NaN = Inr NaN"

text \<open>
  \<^verbatim>\<open>np.linspace(0, stop, num, endpoint=False)\<close> for a finite \<open>stop\<close>: NumPy raises
  ValueError for a negative \<open>num\<close>, computes \<^verbatim>\<open>step = stop / num\<close> and returns
  \<^verbatim>\<open>arange(0, num) * step\<close>; when the step underflows to zero it returns
  \<^verbatim>\<open>arange(0, num) / num * stop\<close> instead.
\<close>

definition linspace_point :: "real \<Rightarrow> int \<Rightarrow> nat \<Rightarrow> real" where
  "linspace_point stop num k =
     (if fl64 (stop / of_int num) = 0
      then fl64 (fl64 (real k / of_int num) * stop)
      else fl64 (real k * fl64 (stop / of_int num)))"

definition linspace :: "real \<Rightarrow> int \<Rightarrow> py_error + real list" where
  "linspace stop num =
     (if num < 0 then Inl ValueError
      else Inr (map (linspace_point stop num) [0..<nat num]))"

section \<open>fundamental\_waveforms.py: constants and generators\<close>

definition SAMPLE_RATE :: int where
  "SAMPLE_RATE = 44100"

definition PLAY_DURATION_S :: real where
  "PLAY_DURATION_S = 5"

definition AMPLITUDE :: real where
  "AMPLITUDE = 1 / 2"

definition FRAMES_PER_BUFFER :: nat where
  "FRAMES_PER_BUFFER = 1024"

definition NUM_PERIODS_TO_PLOT :: real where
  "NUM_PERIODS_TO_PLOT = 3"

datatype family = Sine | Square | Triangle | Sawtooth

type_synonym generated = "py_error + (real list \<times> pyfloat list)"

text \<open>
  Each generator returns the pair \<open>(t, waveform)\<close>. The time axis is
  \<^verbatim>\<open>np.linspace(0, duration, int(sample_rate * duration), endpoint=False)\<close>; the
  product is a product of floats.
\<close>

definition time_axis :: "real \<Rightarrow> int \<Rightarrow> py_error + real list" where
  "time_axis duration sample_rate =
     (case int_of_float (fmul (Fin (of_int sample_rate)) (Fin duration)) of
        Inl e \<Rightarrow> Inl e
      | Inr num \<Rightarrow> linspace duration num)"

text \<open>\<^verbatim>\<open>2 * np.pi * frequency * t\<close>, evaluated from the left.\<close>

definition phase :: "pyfloat \<Rightarrow> real \<Rightarrow> pyfloat" where
  "phase frequency t = fmul (fmul (fmul (Fin 2) (Fin np_pi)) frequency) (Fin t)"

definition sine_sample :: "libm \<Rightarrow> pyfloat \<Rightarrow> real \<Rightarrow> pyfloat" where
  "sine_sample lm frequency t =
     astype32 (fmul (Fin AMPLITUDE) (fsin lm (phase frequency t)))"

definition generate_sine :: "libm \<Rightarrow> pyfloat \<Rightarrow> real \<Rightarrow> int \<Rightarrow> generated" where
  "generate_sine lm frequency duration sample_rate =
     (case time_axis duration sample_rate of
        Inl e \<Rightarrow> Inl e
      | Inr t \<Rightarrow> Inr (t, map (sine_sample lm frequency) t))"

text \<open>
  \<^verbatim>\<open>waveform = AMPLITUDE * np.sign(np.sin(...))\<close> followed by
  \<^verbatim>\<open>waveform[waveform == 0] = AMPLITUDE\<close>.
\<close>

definition square_sample :: "libm \<Rightarrow> pyfloat \<Rightarrow> real \<Rightarrow> pyfloat" where
  "square_sample lm frequency t =
     (let w = fmul (Fin AMPLITUDE) (fsign (fsin lm (phase frequency t)))
      in astype32 (if w = Fin 0 then Fin AMPLITUDE else w))"

definition generate_square :: "libm \<Rightarrow> pyfloat \<Rightarrow> real \<Rightarrow> int \<Rightarrow> generated" where
  "generate_square lm frequency duration sample_rate =
     (case time_axis duration sample_rate of
        Inl e \<Rightarrow> Inl e
      | Inr t \<Rightarrow> Inr (t, map (square_sample lm frequency) t))"

text \<open>\<^verbatim>\<open>AMPLITUDE * (2 / np.pi) * np.arcsin(np.sin(...))\<close>\<close>

definition triangle_sample :: "libm \<Rightarrow> pyfloat \<Rightarrow> real \<Rightarrow> pyfloat" where
  "triangle_sample lm frequency t =
     astype32 (fmul (fmul (Fin AMPLITUDE) (to64 (2 / np_pi)))
                 (farcsin lm (fsin lm (phase frequency t))))"

definition generate_triangle :: "libm \<Rightarrow> pyfloat \<Rightarrow> real \<Rightarrow> int \<Rightarrow> generated" where
  "generate_triangle lm frequency duration sample_rate =
     (case time_axis duration sample_rate of
        Inl e \<Rightarrow> Inl e
      | Inr t \<Rightarrow> Inr (t, map (triangle_sample lm frequency) t))"

text \<open>
  \<^verbatim>\<open>AMPLITUDE * 2 * (t * frequency - np.floor(0.5 + t * frequency))\<close>. The value of
  \<^verbatim>\<open>np.floor(0.5 + t * frequency)\<close> numbers the ramps of the output: it changes where
  the output jumps.
\<close>

definition ramp_index :: "pyfloat \<Rightarrow> real \<Rightarrow> pyfloat" where
  "ramp_index frequency t = ffloor (fadd (Fin (1 / 2)) (fmul (Fin t) frequency))"

definition sawtooth_sample :: "pyfloat \<Rightarrow> real \<Rightarrow> pyfloat" where
  "sawtooth_sample frequency t =
     astype32 (fmul (fmul (Fin AMPLITUDE) (Fin 2))
                 (fsub (fmul (Fin t) frequency) (ramp_index frequency t)))"

definition generate_sawtooth :: "pyfloat \<Rightarrow> real \<Rightarrow> int \<Rightarrow> generated" where
  "generate_sawtooth frequency duration sample_rate =
     (case time_axis duration sample_rate of
        Inl e \<Rightarrow> Inl e
      | Inr t \<Rightarrow> Inr (t, map (sawtooth_sample frequency) t))"

text \<open>The table \<^verbatim>\<open>self.waveform_generators\<close>, keyed by the four names of the combo box.\<close>

fun waveform_generators :: "libm \<Rightarrow> family \<Rightarrow> pyfloat \<Rightarrow> real \<Rightarrow> int \<Rightarrow> generated" where
  "waveform_generators lm Sine = generate_sine lm"
| "waveform_generators lm Square = generate_square lm"
| "waveform_generators lm Triangle = generate_triangle lm"
| "waveform_generators lm Sawtooth = generate_sawtooth"

text \<open>The number of samples of a generated buffer, \<open>None\<close> when the generator raises.\<close>

definition buffer_length :: "libm \<Rightarrow> family \<Rightarrow> pyfloat \<Rightarrow> real \<Rightarrow> int \<Rightarrow> nat option" where
  "buffer_length lm fam frequency duration sample_rate =
     (case waveform_generators lm fam frequency duration sample_rate of
        Inl _ \<Rightarrow> None
      | Inr (t, w) \<Rightarrow> Some (length w))"


text \<open>
  \<^verbatim>\<open>max(0.001, min(q, 0.2))\<close> for the quotient \<open>q\<close> of
  \<^verbatim>\<open>self.NUM_PERIODS_TO_PLOT / frequency_hz\<close>. Python's \<^verbatim>\<open>min(a, b)\<close> is \<open>a\<close> unless
  \<open>b < a\<close>, and \<^verbatim>\<open>max(a, b)\<close> is \<open>a\<close> unless \<open>b > a\<close>: the result is finite for every
  float \<open>q\<close>. The literals are the floats nearest to 0.001 and 0.2.
\<close>

definition plot_duration_s :: "pyfloat \<Rightarrow> real" where
  "plot_duration_s q =
     (case q of
        Fin v \<Rightarrow> max (fl64 (1 / 1000)) (min v (fl64 (2 / 10)))
      | PInf \<Rightarrow> fl64 (2 / 10)
      | NInf \<Rightarrow> fl64 (1 / 1000)
      | NaN \<Rightarrow> fl64 (1 / 1000))"

section \<open>fundamental\_waveforms.py: the frequency entry\<close>

text \<open>
  The text of the frequency entry reaches the program only through
  \<^verbatim>\<open>float(self.freq_var.get())\<close>, which raises ValueError or returns a float (the texts
  \<^verbatim>\<open>nan\<close> and \<^verbatim>\<open>inf\<close> are accepted by \<^verbatim>\<open>float\<close>). The state keeps the entry as that
  outcome.
\<close>

section \<open>fundamental\_waveforms.py: the state of WaveformApp\<close>

text \<open>What the axes show after \<^verbatim>\<open>ax.plot(t_plot, waveform_plot)\<close> and \<^verbatim>\<open>ax.set_xlim\<close>.\<close>

record preview =
  plot_t :: "real list"
  plot_y :: "pyfloat list"
  xlim :: real

text \<open>
  One playback session: the arguments of the thread started by Play. A session is
  named by its position in \<open>sessions\<close>; its Event object and its Thread object carry
  the same number.
\<close>

record session =
  audio_data :: "pyfloat list"
  wave_type :: family
  freq :: pyfloat

record app =
  is_closed :: bool
  master_exists :: bool
  pa :: bool
  fig_ax :: bool
  wave_type_var :: family
  freq_var :: "py_error + pyfloat"
  audio_active :: bool
  button_text :: string
  stop_audio_event :: "nat option"
  audio_thread :: "nat option"
  events_set :: "nat set"
  sessions :: "session list"
  alive :: "nat set"
  drawn :: "preview option"
  draws :: nat
  errors_shown :: "(string \<times> string) list"

text \<open>
  \<open>master_exists\<close> is \<^verbatim>\<open>self.master.winfo_exists()\<close>, \<open>pa\<close> is "\<^verbatim>\<open>self.pa\<close> is not
  None", \<open>fig_ax\<close> is "\<^verbatim>\<open>self.fig\<close> and \<^verbatim>\<open>self.ax\<close> are set". \<open>events_set\<close> holds the
  Event objects whose flag is set, \<open>alive\<close> the threads for which \<^verbatim>\<open>is_alive()\<close> holds:
  a worker leaves \<open>alive\<close> on its own, at any time. \<open>draws\<close> counts the calls of
  \<^verbatim>\<open>canvas.draw()\<close>, \<open>errors_shown\<close> lists the calls of \<^verbatim>\<open>messagebox.showerror\<close>.
  Printing to the console is not modelled.
\<close>

definition showerror :: "string \<Rightarrow> string \<Rightarrow> app \<Rightarrow> app" where
  "showerror title message s = s\<lparr>errors_shown := errors_shown s @ [(title, message)]\<rparr>"

text \<open>\<^verbatim>\<open>self.audio_thread and self.audio_thread.is_alive()\<close>\<close>

definition live_worker :: "app \<Rightarrow> bool" where
  "live_worker s = (case audio_thread s of None \<Rightarrow> False | Some n \<Rightarrow> n \<in> alive s)"

text \<open>\<^verbatim>\<open>if self.stop_audio_event: self.stop_audio_event.set()\<close>\<close>

definition set_stop_event :: "app \<Rightarrow> app" where
  "set_stop_event s =
     (case stop_audio_event s of
        None \<Rightarrow> s
      | Some n \<Rightarrow> s\<lparr>events_set := insert n (events_set s)\<rparr>)"

text \<open>
  \<open>update_plot_display_only\<close>. The frequency is read from the override when one is
  given and from the entry otherwise; \<^verbatim>\<open>float\<close> of a float never raises. An exception
  of the division or of the generator would leave the axes as they are.
\<close>

definition update_plot_display_only ::
  "libm \<Rightarrow> pyfloat option \<Rightarrow> family option \<Rightarrow> app \<Rightarrow> app" where
  "update_plot_display_only lm frequency_hz_override wave_type_key_override s =
     (if is_closed s \<or> \<not> fig_ax s then s
      else
        let wave_type_key =
              (case wave_type_key_override of Some k \<Rightarrow> k | None \<Rightarrow> wave_type_var s);
            parsed =
              (case frequency_hz_override of Some v \<Rightarrow> Inr v | None \<Rightarrow> freq_var s);
            frequency_hz =
              (case parsed of
                 Inl _ \<Rightarrow> Fin 440
               | Inr temp_freq \<Rightarrow> if gt_zero temp_freq then temp_freq else Fin 440)
        in case py_truediv NUM_PERIODS_TO_PLOT frequency_hz of
             Inl _ \<Rightarrow> s
           | Inr q \<Rightarrow>
               (case waveform_generators lm wave_type_key frequency_hz (plot_duration_s q)
                       SAMPLE_RATE of
                  Inl _ \<Rightarrow> s
                | Inr (t_plot, waveform_plot) \<Rightarrow>
                    s\<lparr>drawn := Some \<lparr>plot_t = t_plot, plot_y = waveform_plot,
                                       xlim = plot_duration_s q\<rparr>,
                      draws := Suc (draws s)\<rparr>))"

text \<open>
  The Play branch of the button after the frequency has been validated: redraw, signal
  a previous worker that is still alive, synthesize five seconds, start a new session.
\<close>

definition start_session :: "libm \<Rightarrow> pyfloat \<Rightarrow> app \<Rightarrow> app" where
  "start_session lm frequency s =
     (let s1 = update_plot_display_only lm (Some frequency) None s;
          s2 = (if live_worker s1 then set_stop_event s1 else s1)
      in case waveform_generators lm (wave_type_var s2) frequency PLAY_DURATION_S SAMPLE_RATE of
           Inl _ \<Rightarrow> s2
         | Inr (_, waveform_play) \<Rightarrow>
             s2\<lparr>audio_active := True,
                button_text := ''Stop'',
                stop_audio_event := Some (length (sessions s2)),
                audio_thread := Some (length (sessions s2)),
                sessions := sessions s2 @
                  [\<lparr>audio_data = waveform_play, wave_type = wave_type_var s2,
                    freq = frequency\<rparr>],
                alive := insert (length (sessions s2)) (alive s2)\<rparr>)"

definition on_play_stop_button_click :: "libm \<Rightarrow> app \<Rightarrow> app" where
  "on_play_stop_button_click lm s =
     (if is_closed s then s
      else if \<not> pa s then showerror ''Audio Error'' ''PyAudio is not available.'' s
      else if audio_active s then
        (set_stop_event (s\<lparr>audio_active := False\<rparr>))\<lparr>button_text := ''Play''\<rparr>
      else
        (case freq_var s of
           Inl _ \<Rightarrow> showerror ''Input Error'' ''Invalid frequency.'' s
         | Inr frequency \<Rightarrow>
             if le_zero frequency
             then showerror ''Input Error'' ''Frequency must be positive.'' s
             else start_session lm frequency s))"

text \<open>The callback a worker posts to the event loop when it ends.\<close>

definition update_ui_after_playback_change :: "app \<Rightarrow> app" where
  "update_ui_after_playback_change s =
     (if is_closed s then s
      else if \<not> master_exists s then s
      else if \<not> audio_active s then
        (if button_text s \<noteq> ''Play'' then s\<lparr>button_text := ''Play''\<rparr> else s)
      else if live_worker s then
        (if button_text s \<noteq> ''Stop'' then s\<lparr>button_text := ''Stop''\<rparr> else s)
      else
        (let s1 = s\<lparr>audio_active := False\<rparr>
         in if button_text s1 \<noteq> ''Play'' then s1\<lparr>button_text := ''Play''\<rparr> else s1))"

section \<open>fundamental\_waveforms.py: the worker thread\<close>

text \<open>
  The worker runs beside the event loop. What it sees of the rest of the program is
  given by an environment, read in program order: the stop event and the application
  object at each poll (poll 0 is the check before the stream is opened, poll \<open>j + 1\<close>
  the check before chunk \<open>j\<close>), the application object in the \<^verbatim>\<open>finally\<close> block, and
  the results of the calls to the audio device.
\<close>

record env =
  stop_is_set :: "nat \<Rightarrow> bool"
  ui :: "nat \<Rightarrow> app"
  ui_exit :: app
  open_raises :: bool
  write_raises :: "nat \<Rightarrow> bool"
  is_active_result :: "bool option"
  stop_raises :: bool
  close_raises :: bool

datatype dev_call = Open | Write "pyfloat list" | IsActive | StopStream | Close

record outcome =
  calls :: "dev_call list"
  scheduled :: nat

text \<open>
  \<open>calls\<close> lists the calls made to the device, in order, also those that raised;
  \<open>scheduled\<close> counts the calls \<^verbatim>\<open>self.master.after(0, self._update_ui_after_playback_change)\<close>.
  The worker uses the callback nowhere else.
\<close>

text \<open>
  \<^verbatim>\<open>range(0, len(audio_data), FRAMES_PER_BUFFER)\<close> and the slice
  \<^verbatim>\<open>audio_data[i:min(i + FRAMES_PER_BUFFER, len(audio_data))]\<close>.
\<close>

definition chunk_starts :: "nat \<Rightarrow> nat list" where
  "chunk_starts n =
     map (\<lambda>k. k * FRAMES_PER_BUFFER) [0..<(n + FRAMES_PER_BUFFER - 1) div FRAMES_PER_BUFFER]"

definition chunk_at :: "pyfloat list \<Rightarrow> nat \<Rightarrow> pyfloat list" where
  "chunk_at data i = take (min (i + FRAMES_PER_BUFFER) (length data) - i) (drop i data)"

text \<open>
  The loop over the chunks, from iteration \<open>j\<close>: the device calls it makes and whether
  it was left by an exception.
\<close>

fun stream_loop :: "env \<Rightarrow> pyfloat list \<Rightarrow> nat \<Rightarrow> nat list \<Rightarrow> dev_call list \<times> bool" where
  "stream_loop e data j [] = ([], False)"
| "stream_loop e data j (i # rest) =
     (if stop_is_set e (Suc j) \<or> \<not> audio_active (ui e (Suc j)) then ([], False)
      else if chunk_at data i = [] then stream_loop e data (Suc j) rest
      else if write_raises e j then ([Write (chunk_at data i)], True)
      else (case stream_loop e data (Suc j) rest of
              (ws, raised) \<Rightarrow> (Write (chunk_at data i) # ws, raised)))"

text \<open>The \<^verbatim>\<open>try\<close> body: whether a stream object was obtained, and the device calls.\<close>

definition worker_body :: "env \<Rightarrow> pyfloat list \<Rightarrow> bool \<times> dev_call list" where
  "worker_body e data =
     (if stop_is_set e 0 \<or> \<not> audio_active (ui e 0) then (False, [])
      else if \<not> pa (ui e 0) then (False, [])
      else if open_raises e then (False, [Open])
      else (True, Open # fst (stream_loop e data 0 (chunk_starts (length data)))))"

text \<open>
  The release in the \<^verbatim>\<open>finally\<close> block: \<^verbatim>\<open>if stream.is_active(): stream.stop_stream()\<close>,
  then \<^verbatim>\<open>stream.close()\<close>, inside one \<^verbatim>\<open>try\<close> whose handler only prints.
\<close>

definition release_stream :: "env \<Rightarrow> dev_call list" where
  "release_stream e =
     IsActive #
       (case is_active_result e of
          None \<Rightarrow> []
        | Some False \<Rightarrow> [Close]
        | Some True \<Rightarrow> StopStream # (if stop_raises e then [] else [Close]))"

definition play_audio_thread_target :: "env \<Rightarrow> pyfloat list \<Rightarrow> outcome" where
  "play_audio_thread_target e data =
     (case worker_body e data of
        (stream, cs) \<Rightarrow>
          \<lparr>calls = cs @ (if stream then release_stream e else []),
           scheduled =
             (if \<not> is_closed (ui_exit e)
              then (if master_exists (ui_exit e) then 1 else 0)
              else 0)\<rparr>)"

text \<open>The chunks handed to \<^verbatim>\<open>stream.write\<close>, in order.\<close>

fun written_of :: "dev_call list \<Rightarrow> pyfloat list list" where
  "written_of [] = []"
| "written_of (Write c # cs) = c # written_of cs"
| "written_of (_ # cs) = written_of cs"

definition written :: "outcome \<Rightarrow> pyfloat list list" where
  "written r = written_of (calls r)"

text \<open>Whether the run got a stream from \<^verbatim>\<open>self.pa.open\<close>.\<close>

definition stream_opened :: "env \<Rightarrow> bool" where
  "stream_opened e =
     (\<not> stop_is_set e 0 \<and> audio_active (ui e 0) \<and> pa (ui e 0) \<and> \<not> open_raises e)"

section \<open>Example states\<close>

text \<open>
  The application as \<^verbatim>\<open>__init__\<close> leaves it before the first preview is drawn, with
  the audio subsystem available; and the same with a session playing.
\<close>

definition fresh_app :: app where
  "fresh_app =
     \<lparr>is_closed = False, master_exists = True, pa = True, fig_ax = True,
      wave_type_var = Sine, freq_var = Inr (Fin 440), audio_active = False,
      button_text = ''Play'', stop_audio_event = None, audio_thread = None,
      events_set = {}, sessions = [], alive = {}, drawn = None, draws = 0,
      errors_shown = []\<rparr>"

definition playing_app :: app where
  "playing_app =
     fresh_app\<lparr>audio_active := True, button_text := ''Stop'',
       stop_audio_event := Some 0, audio_thread := Some 0,
       sessions := [\<lparr>audio_data = [Fin 0], wave_type = Sine, freq = Fin 440\<rparr>],
       alive := {0}\<rparr>"

text \<open>A worker whose device never fails and whose stop event is never set.\<close>

definition quiet_env :: "app \<Rightarrow> env" where
  "quiet_env s =
     \<lparr>stop_is_set = (\<lambda>_. False), ui = (\<lambda>_. s), ui_exit = s,
      open_raises = False, write_raises = (\<lambda>_. False),
      is_active_result = Some True, stop_raises = False, close_raises = False\<rparr>"

text \<open>
  A worker that ends after the application was closed: the one-second join of
  \<open>on_closing\<close> ran out, the window was destroyed and \<^verbatim>\<open>_is_closed\<close> set, and only
  then the worker reaches its \<^verbatim>\<open>finally\<close> block.
\<close>

definition late_env :: env where
  "late_env =
     (quiet_env playing_app)\<lparr>ui_exit :=
        playing_app\<lparr>audio_active := False, master_exists := False, is_closed := True\<rparr>\<rparr>"

text \<open>
  A worker that polls between the two statements \<^verbatim>\<open>self.audio_active = False\<close> and
  \<^verbatim>\<open>self.stop_audio_event.set()\<close> of the Stop branch: before its first chunk it sees
  the flag \<open>audio_active\<close> cleared while the stop event is not set yet.
\<close>

definition racing_env :: env where
  "racing_env =
     (quiet_env playing_app)\<lparr>ui :=
        (\<lambda>k. if k = 0 then playing_app else playing_app\<lparr>audio_active := False\<rparr>)\<rparr>"

text \<open>
  A C library for the examples: the sine is the exact sine rounded to a float, the arc
  sine is the exact arc sine rounded to a float and kept within \<open>np.pi / 2\<close>.
\<close>

definition example_libm :: libm where
  "example_libm =
     \<lparr>sin64 = (\<lambda>x. fl64 (sin x)),
      asin64 = (\<lambda>y. max (- (np_pi / 2)) (min (np_pi / 2) (fl64 (arcsin y))))\<rparr>"

section \<open>simple\_function\_area\_approximation.py\<close>



section \<open>Lemmas on rounding\<close>

lemma pow2_powr: "pow2 k = 2 powr (of_int k)"
proof (cases "0 \<le> k")
  case True
  then have "2 powr (of_int k) = (2::real) powr (real (nat k))" by simp
  also have "\<dots> = 2 ^ nat k" by (simp add: powr_realpow)
  finally show ?thesis using True by (simp add: pow2_def)
next
  case False
  then have "2 powr (of_int k) = (2::real) powr (- real (nat (- k)))" by simp
  also have "\<dots> = 1 / 2 ^ nat (- k)" by (simp add: powr_minus powr_realpow inverse_eq_divide)
  finally show ?thesis using False by (simp add: pow2_def)
qed

lemma pow2_pos [simp]: "0 < pow2 k"
  by (simp add: pow2_powr)

lemma pow2_add: "pow2 (a + b) = pow2 a * pow2 b"
  by (simp add: pow2_powr powr_add)

lemma pow2_mono: "a \<le> b \<Longrightarrow> pow2 a \<le> pow2 b"
  by (simp add: pow2_powr)

lemma pow2_strict_mono: "a < b \<Longrightarrow> pow2 a < pow2 b"
  by (simp add: pow2_powr)

lemma pow2_diff: "pow2 (a - b) = pow2 a / pow2 b"
  by (simp add: pow2_powr powr_diff)

lemma pow2_nat: "0 \<le> k \<Longrightarrow> pow2 k = of_int (2 ^ nat k)"
  by (simp add: pow2_def)

lemma rne_cases:
  "rne y = \<lfloor>y\<rfloor> \<or> rne y = \<lfloor>y\<rfloor> + 1"
  by (simp add: rne_def Let_def)

lemma rne_error: "\<bar>of_int (rne y) - y\<bar> \<le> 1 / 2"
  unfolding rne_def Let_def by (auto; linarith)

lemma rne_of_int [simp]: "rne (of_int n) = n"
  by (simp add: rne_def)

lemma rne_mono: assumes "x \<le> y" shows "rne x \<le> rne y"
proof (cases "\<lfloor>x\<rfloor> = \<lfloor>y\<rfloor>")
  case True
  then show ?thesis using assms unfolding rne_def Let_def by (auto; linarith)
next
  case False
  with assms have lt: "\<lfloor>x\<rfloor> < \<lfloor>y\<rfloor>" by (simp add: floor_mono order.strict_iff_order)
  have "rne x \<le> \<lfloor>x\<rfloor> + 1" using rne_cases [of x] by auto
  moreover have "\<lfloor>y\<rfloor> \<le> rne y" using rne_cases [of y] by auto
  ultimately show ?thesis using lt by linarith
qed

lemma rne_minus: "rne (- y) = - rne y"
proof (cases "y \<in> \<int>")
  case True
  then obtain n where "y = of_int n" by (auto elim: Ints_cases)
  then show ?thesis by (simp flip: of_int_minus)
next
  case False
  then have ne: "y \<noteq> of_int \<lfloor>y\<rfloor>"
    by (metis Ints_of_int)
  then have fr: "0 < y - of_int \<lfloor>y\<rfloor>" "y - of_int \<lfloor>y\<rfloor> < 1"
    by linarith+
  have fl: "\<lfloor>- y\<rfloor> = - \<lfloor>y\<rfloor> - 1"
    using fr by (intro floor_unique) simp_all
  show ?thesis
    unfolding rne_def Let_def fl using fr by (auto; linarith?)
qed

lemma expo_bounds:
  assumes "x \<noteq> 0"
  shows "pow2 (expo x) \<le> \<bar>x\<bar>" and "\<bar>x\<bar> < pow2 (expo x + 1)"
proof -
  have pos: "0 < \<bar>x\<bar>" using assms by simp
  have "of_int (expo x) \<le> log 2 \<bar>x\<bar>" by (simp add: expo_def)
  then have "2 powr (of_int (expo x)) \<le> 2 powr (log 2 \<bar>x\<bar>)" by simp
  then show "pow2 (expo x) \<le> \<bar>x\<bar>" using pos by (simp add: pow2_powr)
  have "log 2 \<bar>x\<bar> < of_int (expo x + 1)" by (simp add: expo_def)
  then have "2 powr (log 2 \<bar>x\<bar>) < 2 powr (of_int (expo x + 1))" by (simp del: of_int_add)
  then show "\<bar>x\<bar> < pow2 (expo x + 1)" using pos by (simp add: pow2_powr)
qed

lemma expo_eqI:
  assumes "pow2 e \<le> \<bar>x\<bar>" and "\<bar>x\<bar> < pow2 (e + 1)"
  shows "expo x = e"
proof -
  have pos: "0 < \<bar>x\<bar>" using assms(1) pow2_pos [of e] by linarith
  have "log 2 (pow2 e) \<le> log 2 \<bar>x\<bar>" using assms(1) pos by simp
  then have a: "of_int e \<le> log 2 \<bar>x\<bar>" by (simp add: pow2_powr)
  have "log 2 \<bar>x\<bar> < log 2 (pow2 (e + 1))" using assms(2) pos by simp
  then have b: "log 2 \<bar>x\<bar> < of_int e + 1" by (simp add: pow2_powr)
  show ?thesis unfolding expo_def using a b by (intro floor_unique) simp_all
qed

lemma expo_less:
  assumes "x \<noteq> 0" and "\<bar>x\<bar> < pow2 k"
  shows "expo x < k"
proof (rule ccontr)
  assume "\<not> expo x < k"
  then have "pow2 k \<le> pow2 (expo x)" by (simp add: pow2_mono)
  with expo_bounds(1) [OF assms(1)] assms(2) show False by linarith
qed

lemma expo_ge:
  assumes "pow2 k \<le> \<bar>x\<bar>"
  shows "k \<le> expo x"
proof (rule ccontr)
  assume "\<not> k \<le> expo x"
  then have "pow2 (expo x + 1) \<le> pow2 k" by (simp add: pow2_mono)
  moreover have "0 < \<bar>x\<bar>" using assms pow2_pos [of k] by linarith
  then have "x \<noteq> 0" by auto
  ultimately show False using expo_bounds(2) [of x] assms by linarith
qed

lemma ulp_pos [simp]: "0 < ulp p emin x"
  by (simp add: ulp_def)

lemma ulp_nonneg [simp]: "0 \<le> ulp p emin x"
  using ulp_pos [of p emin x] by linarith

lemma ulp_neq0 [simp]: "ulp p emin x \<noteq> 0"
  using ulp_pos [of p emin x] by linarith

lemma pow2_nonneg [simp]: "0 \<le> pow2 k"
  using pow2_pos [of k] by linarith

lemma pow2_neq0 [simp]: "pow2 k \<noteq> 0"
  using pow2_pos [of k] by linarith

lemma round_to_ulp:
  "x \<noteq> 0 \<Longrightarrow> round_to p emin x = of_int (rne (x / ulp p emin x)) * ulp p emin x"
  by (simp add: round_to_def)

lemma round_to_zero [simp]: "round_to p emin 0 = 0"
  by (simp add: round_to_def)

lemma round_to_minus: "round_to p emin (- x) = - round_to p emin x"
  by (simp add: round_to_def ulp_def rne_minus expo_def)

lemma round_to_nonneg: "0 \<le> x \<Longrightarrow> 0 \<le> round_to p emin x"
proof (cases "x = 0")
  case False
  assume "0 \<le> x"
  then have "0 \<le> x / ulp p emin x" by simp
  then have "rne 0 \<le> rne (x / ulp p emin x)" by (rule rne_mono)
  then have "0 \<le> rne (x / ulp p emin x)" by (simp add: rne_def)
  then show ?thesis using False by (simp add: round_to_ulp)
qed simp

lemma round_to_eval:
  assumes "pow2 e \<le> \<bar>x\<bar>" and "\<bar>x\<bar> < pow2 (e + 1)"
  shows "round_to p emin x =
    of_int (rne (x / pow2 (max e emin - p + 1))) * pow2 (max e emin - p + 1)"
proof -
  have "0 < \<bar>x\<bar>" using assms(1) pow2_pos [of e] by linarith
  then have "x \<noteq> 0" by auto
  moreover have "expo x = e" using assms by (rule expo_eqI)
  ultimately show ?thesis by (simp add: round_to_def ulp_def)
qed

lemma round_to_eval_tiny:
  assumes "x \<noteq> 0" and "\<bar>x\<bar> < pow2 emin"
  shows "round_to p emin x = of_int (rne (x / pow2 (emin - p + 1))) * pow2 (emin - p + 1)"
proof -
  have "expo x < emin" using assms by (rule expo_less)
  then have "max (expo x) emin = emin" by simp
  then show ?thesis using assms(1) by (simp add: round_to_def ulp_def)
qed

lemma round_to_error:
  assumes "x \<noteq> 0"
  shows "\<bar>round_to p emin x - x\<bar> \<le> ulp p emin x / 2"
proof -
  let ?u = "ulp p emin x"
  let ?r = "of_int (rne (x / ?u)) :: real"
  have "\<bar>?r - x / ?u\<bar> \<le> 1 / 2" by (rule rne_error)
  then have "\<bar>?r - x / ?u\<bar> * ?u \<le> 1 / 2 * ?u"
    by (intro mult_right_mono) simp_all
  moreover have "\<bar>?r - x / ?u\<bar> * ?u = \<bar>?r * ?u - x\<bar>"
  proof -
    have "\<bar>?r - x / ?u\<bar> * ?u = \<bar>(?r - x / ?u) * ?u\<bar>"
      by (simp add: abs_mult)
    also have "(?r - x / ?u) * ?u = ?r * ?u - x"
      by (simp add: left_diff_distrib)
    finally show ?thesis .
  qed
  ultimately show ?thesis using assms by (simp add: round_to_ulp)
qed

lemma pow2_Suc: "pow2 (k + 1) = 2 * pow2 k"
  using pow2_add [of k 1] by (simp add: pow2_def)

lemma round_to_error_bound:
  assumes "\<bar>x\<bar> < pow2 (k + 1)" and "emin \<le> k"
  shows "\<bar>round_to p emin x - x\<bar> \<le> pow2 (k - p)"
proof (cases "x = 0")
  case False
  have "expo x < k + 1" using False assms(1) by (rule expo_less)
  then have "max (expo x) emin - p + 1 \<le> k - p + 1" using assms(2) by simp
  then have "ulp p emin x \<le> pow2 (k - p + 1)" unfolding ulp_def by (rule pow2_mono)
  moreover have "pow2 (k - p + 1) = 2 * pow2 (k - p)"
    by (rule pow2_Suc)
  ultimately show ?thesis using round_to_error [OF False, of p emin] by linarith
qed simp



text \<open>A bound that is a multiple of the unit in the last place of \<open>x\<close> is kept.\<close>

lemma round_to_le_multiple:
  assumes "x \<noteq> 0" and "x \<le> of_int n * ulp p emin x"
  shows "round_to p emin x \<le> of_int n * ulp p emin x"
proof -
  let ?u = "ulp p emin x"
  have "x / ?u \<le> of_int n" using assms(2) by (simp add: divide_le_eq)
  then have "rne (x / ?u) \<le> rne (of_int n)" by (rule rne_mono)
  then have "rne (x / ?u) \<le> n" by simp
  then have "(of_int (rne (x / ?u)) :: real) \<le> of_int n" by simp
  then have "of_int (rne (x / ?u)) * ?u \<le> of_int n * ?u"
    by (intro mult_right_mono) simp_all
  then show ?thesis using assms(1) by (simp add: round_to_ulp)
qed

lemma round_to_ge_multiple:
  assumes "x \<noteq> 0" and "of_int n * ulp p emin x \<le> x"
  shows "of_int n * ulp p emin x \<le> round_to p emin x"
proof -
  let ?u = "ulp p emin x"
  have "of_int n \<le> x / ?u" using assms(2) by (simp add: le_divide_eq)
  then have "rne (of_int n) \<le> rne (x / ?u)" by (rule rne_mono)
  then have "n \<le> rne (x / ?u)" by simp
  then have "(of_int n :: real) \<le> of_int (rne (x / ?u))" by simp
  then have "of_int n * ?u \<le> of_int (rne (x / ?u)) * ?u"
    by (intro mult_right_mono) simp_all
  then show ?thesis using assms(1) by (simp add: round_to_ulp)
qed

text \<open>Powers of two above the exponent of \<open>x\<close> are multiples of its unit.\<close>

lemma pow2_multiple_ulp:
  assumes "max (expo x) emin - p + 1 \<le> k"
  shows "pow2 k = of_int (2 ^ nat (k - (max (expo x) emin - p + 1))) * ulp p emin x"
proof -
  let ?d = "k - (max (expo x) emin - p + 1)"
  have "pow2 k = pow2 (?d + (max (expo x) emin - p + 1))" by simp
  also have "\<dots> = pow2 ?d * ulp p emin x" unfolding ulp_def by (rule pow2_add)
  also have "pow2 ?d = of_int (2 ^ nat ?d)" using assms by (intro pow2_nat) simp
  finally show ?thesis .
qed

lemma expo_mono:
  assumes "x \<noteq> 0" and "\<bar>x\<bar> \<le> \<bar>y\<bar>"
  shows "expo x \<le> expo y"
  unfolding expo_def using assms by (intro floor_mono) simp

lemma round_to_mono_pos:
  assumes "0 < p" and "0 < x" and "x \<le> y"
  shows "round_to p emin x \<le> round_to p emin y"
proof -
  have x0: "x \<noteq> 0" and y0: "y \<noteq> 0" using assms by auto
  have ee: "expo x \<le> expo y" using x0 assms by (intro expo_mono) simp_all
  let ?ex = "max (expo x) emin" and ?ey = "max (expo y) emin"
  have le: "?ex \<le> ?ey" using ee by simp
  show ?thesis
  proof (cases "?ex = ?ey")
    case True
    then have u: "ulp p emin x = ulp p emin y" by (simp add: ulp_def)
    have "x / ulp p emin y \<le> y / ulp p emin y"
      using assms(3) by (simp add: divide_right_mono)
    then have "rne (x / ulp p emin y) \<le> rne (y / ulp p emin y)" by (rule rne_mono)
    then have "(of_int (rne (x / ulp p emin y)) :: real) \<le> of_int (rne (y / ulp p emin y))"
      by simp
    then have "of_int (rne (x / ulp p emin y)) * ulp p emin y
        \<le> of_int (rne (y / ulp p emin y)) * ulp p emin y"
      by (intro mult_right_mono) simp_all
    then show ?thesis using x0 y0 by (simp add: round_to_ulp u)
  next
    case False
    have lt: "?ex < ?ey" using le False by linarith
    then have ey: "?ey = expo y" by linarith
    have ex1: "expo x + 1 \<le> ?ey" using lt by simp
    let ?B = "pow2 ?ey"
    have "x < pow2 (expo x + 1)" using expo_bounds(2) [OF x0] assms(2) by simp
    also have "\<dots> \<le> ?B" using ex1 by (rule pow2_mono)
    finally have xB: "x \<le> ?B" by simp
    have side: "?ex - p + 1 \<le> ?ey" using lt assms(1) by linarith
    have Bx: "?B = of_int (2 ^ nat (?ey - (?ex - p + 1))) * ulp p emin x"
      using side by (rule pow2_multiple_ulp)
    have "round_to p emin x \<le> of_int (2 ^ nat (?ey - (?ex - p + 1))) * ulp p emin x"
      using x0 xB unfolding Bx by (rule round_to_le_multiple)
    then have r1: "round_to p emin x \<le> ?B" using Bx by simp
    have "?B \<le> \<bar>y\<bar>" using expo_bounds(1) [OF y0] ey by simp
    then have By: "?B \<le> y" using assms by simp
    have side': "?ey - p + 1 \<le> ?ey" using assms(1) by linarith
    have By': "?B = of_int (2 ^ nat (?ey - (?ey - p + 1))) * ulp p emin y"
      using side' by (rule pow2_multiple_ulp)
    have "of_int (2 ^ nat (?ey - (?ey - p + 1))) * ulp p emin y \<le> round_to p emin y"
      using y0 By unfolding By' by (rule round_to_ge_multiple)
    then have "?B \<le> round_to p emin y" using By' by simp
    with r1 show ?thesis by linarith
  qed
qed

lemma round_to_mono:
  assumes "0 < p" and "x \<le> y"
  shows "round_to p emin x \<le> round_to p emin y"
proof -
  consider "0 < x" | "x \<le> 0" "0 \<le> y" | "y < 0" by linarith
  then show ?thesis
  proof cases
    case 1
    then show ?thesis using assms by (intro round_to_mono_pos) simp_all
  next
    case 2
    have "0 \<le> round_to p emin (- x)" using 2(1) by (intro round_to_nonneg) simp
    then have "round_to p emin x \<le> 0" by (simp add: round_to_minus)
    moreover have "0 \<le> round_to p emin y" using 2(2) by (rule round_to_nonneg)
    ultimately show ?thesis by linarith
  next
    case 3
    then have "round_to p emin (- y) \<le> round_to p emin (- x)"
      using assms by (intro round_to_mono_pos) simp_all
    then show ?thesis by (simp add: round_to_minus)
  qed
qed

lemma round_to_repr:
  assumes "0 < p" and "\<bar>m\<bar> < 2 ^ nat p" and "emin - p + 1 \<le> q"
  shows "round_to p emin (of_int m * pow2 q) = of_int m * pow2 q"
proof (cases "m = 0")
  case False
  let ?x = "of_int m * pow2 q :: real"
  have x0: "?x \<noteq> 0" using False by simp
  have "\<bar>?x\<bar> = of_int \<bar>m\<bar> * pow2 q" by (simp add: abs_mult)
  also have "\<dots> < of_int (2 ^ nat p) * pow2 q"
    using assms(2) by (intro mult_strict_right_mono) (simp_all only: of_int_less_iff pow2_pos)
  also have "\<dots> = pow2 (p + q)" using assms(1) by (simp add: pow2_add pow2_nat)
  finally have "\<bar>?x\<bar> < pow2 (p + q)" .
  from expo_less [OF x0 this] have e: "expo ?x - p + 1 \<le> q" by simp
  define d where "d = q - (max (expo ?x) emin - p + 1)"
  have d0: "0 \<le> d" unfolding d_def using e assms(3) by simp
  have "q - d = max (expo ?x) emin - p + 1" by (simp add: d_def)
  then have u: "ulp p emin ?x = pow2 (q - d)" by (simp only: ulp_def)
  have "?x / ulp p emin ?x = of_int m * (pow2 q / pow2 (q - d))" by (simp add: u)
  also have "pow2 q / pow2 (q - d) = pow2 d" using pow2_diff [of q "q - d"] by simp
  also have "pow2 d = of_int (2 ^ nat d)" using d0 by (rule pow2_nat)
  finally have "?x / ulp p emin ?x = of_int (m * 2 ^ nat d)" by simp
  then have r: "rne (?x / ulp p emin ?x) = m * 2 ^ nat d" by (simp only: rne_of_int)
  have "round_to p emin ?x = of_int (rne (?x / ulp p emin ?x)) * ulp p emin ?x"
    using x0 by (rule round_to_ulp)
  also have "\<dots> = of_int (m * 2 ^ nat d) * pow2 (q - d)"
    using r unfolding u by simp
  also have "\<dots> = of_int m * (of_int (2 ^ nat d) * pow2 (q - d))" by simp
  also have "of_int (2 ^ nat d) * pow2 (q - d) = pow2 d * pow2 (q - d)"
    using d0 by (simp only: pow2_nat)
  also have "\<dots> = pow2 q" using pow2_add [of d "q - d"] by simp
  finally show ?thesis .
qed simp

lemma round_to_int:
  assumes "0 < p" and "\<bar>m\<bar> < 2 ^ nat p" and "emin - p + 1 \<le> 0"
  shows "round_to p emin (of_int m) = of_int m"
  using round_to_repr [OF assms(1,2), of emin 0] assms(3) by (simp add: pow2_def)

section \<open>Rounding to binary64 and binary32\<close>

lemma fl64_eval:
  assumes "pow2 e \<le> \<bar>x\<bar>" and "\<bar>x\<bar> < pow2 (e + 1)" and "- 1022 \<le> e"
  shows "fl64 x = of_int (rne (x / pow2 (e - 52))) * pow2 (e - 52)"
proof -
  have "max e (- 1022) - 53 + 1 = e - 52" using assms(3) by simp
  then show ?thesis
    unfolding fl64_def using round_to_eval [OF assms(1,2), of 53 "- 1022"] by simp
qed

lemma fl32_eval:
  assumes "pow2 e \<le> \<bar>x\<bar>" and "\<bar>x\<bar> < pow2 (e + 1)" and "- 126 \<le> e"
  shows "fl32 x = of_int (rne (x / pow2 (e - 23))) * pow2 (e - 23)"
proof -
  have "max e (- 126) - 24 + 1 = e - 23" using assms(3) by simp
  then show ?thesis
    unfolding fl32_def using round_to_eval [OF assms(1,2), of 24 "- 126"] by simp
qed

lemma fl64_mono: "x \<le> y \<Longrightarrow> fl64 x \<le> fl64 y"
  unfolding fl64_def by (rule round_to_mono) simp_all

lemma fl32_mono: "x \<le> y \<Longrightarrow> fl32 x \<le> fl32 y"
  unfolding fl32_def by (rule round_to_mono) simp_all

lemma fl64_nonneg: "0 \<le> x \<Longrightarrow> 0 \<le> fl64 x"
  unfolding fl64_def by (rule round_to_nonneg)


lemma fl64_minus: "fl64 (- x) = - fl64 x"
  unfolding fl64_def by (rule round_to_minus)


lemma fl64_zero [simp]: "fl64 0 = 0"
  by (simp add: fl64_def)

lemma fl32_zero [simp]: "fl32 0 = 0"
  by (simp add: fl32_def)

lemma fl64_repr:
  assumes "\<bar>m\<bar> < 2 ^ 53" and "- 1074 \<le> q"
  shows "fl64 (of_int m * pow2 q) = of_int m * pow2 q"
  unfolding fl64_def using assms by (intro round_to_repr) simp_all



lemma fl64_pow2: "- 1074 \<le> k \<Longrightarrow> fl64 (pow2 k) = pow2 k"
  using fl64_repr [of 1 k] by simp

lemma fl64_abs_le_pow2:
  assumes "\<bar>x\<bar> \<le> pow2 k" and "- 1074 \<le> k"
  shows "\<bar>fl64 x\<bar> \<le> pow2 k"
proof -
  have "fl64 x \<le> fl64 (pow2 k)" using assms(1) by (intro fl64_mono) simp
  moreover have "fl64 (- pow2 k) \<le> fl64 x" using assms(1) by (intro fl64_mono) simp
  ultimately show ?thesis using fl64_pow2 [OF assms(2)] by (simp add: fl64_minus)
qed

lemma to64_finite:
  assumes "\<bar>x\<bar> \<le> pow2 1023"
  shows "to64 x = Fin (fl64 x)"
proof -
  have "\<bar>fl64 x\<bar> \<le> pow2 1023" using assms by (rule fl64_abs_le_pow2) simp
  moreover have "pow2 1023 < pow2 1024" by (rule pow2_strict_mono) simp
  ultimately have "\<not> pow2 1024 \<le> fl64 x" "\<not> fl64 x \<le> - pow2 1024" by linarith+
  then show ?thesis by (simp add: to64_def overflow_def)
qed

lemma fl64_3_440: "fl64 (3 / 440) = 7860828440501229 / 2 ^ 60"
proof -
  have "fl64 (3 / 440) = of_int (rne ((3 / 440) / pow2 (-8 - 52))) * pow2 (-8 - 52)"
    by (rule fl64_eval) (simp_all add: pow2_def)
  also have "\<dots> = 7860828440501229 / 2 ^ 60"
    by (simp add: pow2_def rne_def Let_def)
  finally show ?thesis .
qed


lemma fl64_3_147: "fl64 (1 / 49) = 5882252574524729 / 2 ^ 58"
proof -
  have "fl64 (1 / 49) = of_int (rne ((1 / 49) / pow2 (-6 - 52))) * pow2 (-6 - 52)"
    by (rule fl64_eval) (simp_all add: pow2_def)
  also have "\<dots> = 5882252574524729 / 2 ^ 58"
    by (simp add: pow2_def rne_def Let_def)
  finally show ?thesis .
qed

lemma fl64_3_20: "fl64 (3 / 20) = 5404319552844595 / 2 ^ 55"
proof -
  have "fl64 (3 / 20) = of_int (rne ((3 / 20) / pow2 (-3 - 52))) * pow2 (-3 - 52)"
    by (rule fl64_eval) (simp_all add: pow2_def)
  also have "\<dots> = 5404319552844595 / 2 ^ 55"
    by (simp add: pow2_def rne_def Let_def)
  finally show ?thesis .
qed

lemma fl64_milli: "fl64 (1 / 1000) = 1152921504606847 / 2 ^ 60"
proof -
  have "fl64 (1 / 1000) = of_int (rne ((1 / 1000) / pow2 (-10 - 52))) * pow2 (-10 - 52)"
    by (rule fl64_eval) (simp_all add: pow2_def)
  also have "\<dots> = 1152921504606847 / 2 ^ 60"
    by (simp add: pow2_def rne_def Let_def)
  finally show ?thesis .
qed

lemma fl64_fifth: "fl64 (1 / 5) = 3602879701896397 / 2 ^ 54"
proof -
  have "fl64 (1 / 5) = of_int (rne ((1 / 5) / pow2 (-3 - 52))) * pow2 (-3 - 52)"
    by (rule fl64_eval) (simp_all add: pow2_def)
  also have "\<dots> = 3602879701896397 / 2 ^ 54"
    by (simp add: pow2_def rne_def Let_def)
  finally show ?thesis .
qed

lemma fl64_rate_440: "fl64 (44100 * (7860828440501229 / 2 ^ 60)) = 5289650485627811 / 2 ^ 44"
proof -
  have "fl64 (44100 * (7860828440501229 / 2 ^ 60)) = of_int (rne ((44100 * (7860828440501229 / 2 ^ 60)) / pow2 (8 - 52))) * pow2 (8 - 52)"
    by (rule fl64_eval) (simp_all add: pow2_def)
  also have "\<dots> = 5289650485627811 / 2 ^ 44"
    by (simp add: pow2_def rne_def Let_def)
  finally show ?thesis .
qed


lemma fl64_rate_147: "fl64 (44100 * (5882252574524729 / 2 ^ 58)) = 7916483719987199 / 2 ^ 43"
proof -
  have "fl64 (44100 * (5882252574524729 / 2 ^ 58)) = of_int (rne ((44100 * (5882252574524729 / 2 ^ 58)) / pow2 (9 - 52))) * pow2 (9 - 52)"
    by (rule fl64_eval) (simp_all add: pow2_def)
  also have "\<dots> = 7916483719987199 / 2 ^ 43"
    by (simp add: pow2_def rne_def Let_def)
  finally show ?thesis .
qed

lemma fl64_rate_20: "fl64 (44100 * (5404319552844595 / 2 ^ 55)) = 6615"
proof -
  have "fl64 (44100 * (5404319552844595 / 2 ^ 55)) = of_int (rne ((44100 * (5404319552844595 / 2 ^ 55)) / pow2 (12 - 52))) * pow2 (12 - 52)"
    by (rule fl64_eval) (simp_all add: pow2_def)
  also have "\<dots> = 6615"
    by (simp add: pow2_def rne_def Let_def)
  finally show ?thesis .
qed

section \<open>The time axis and the length of a buffer\<close>

lemma time_axis_returns:
  assumes "0 < duration" and "0 \<le> sample_rate"
    and "of_int sample_rate * duration \<le> pow2 1023"
  shows "time_axis duration sample_rate =
     Inr (map (linspace_point duration \<lfloor>fl64 (of_int sample_rate * duration)\<rfloor>)
            [0..<nat \<lfloor>fl64 (of_int sample_rate * duration)\<rfloor>])"
proof -
  let ?p = "of_int sample_rate * duration :: real"
  have nonneg: "0 \<le> ?p" using assms by simp
  then have "\<bar>?p\<bar> \<le> pow2 1023" using assms(3) by simp
  then have prod: "to64 ?p = Fin (fl64 ?p)"
    by (rule to64_finite)
  have r: "0 \<le> fl64 ?p" using nonneg by (rule fl64_nonneg)
  then have "py_int (fl64 ?p) = \<lfloor>fl64 ?p\<rfloor>" by (simp add: py_int_def)
  moreover have "\<not> \<lfloor>fl64 ?p\<rfloor> < 0" using r by simp
  ultimately show ?thesis
    by (simp add: time_axis_def prod linspace_def)
qed

lemma generators_return:
  assumes "0 < duration" and "0 \<le> sample_rate"
    and "of_int sample_rate * duration \<le> pow2 1023"
  shows "\<exists>t sample. length t = nat \<lfloor>fl64 (of_int sample_rate * duration)\<rfloor> \<and>
           waveform_generators lm fam frequency duration sample_rate = Inr (t, map sample t)"
proof -
  let ?t = "map (linspace_point duration \<lfloor>fl64 (of_int sample_rate * duration)\<rfloor>)
            [0..<nat \<lfloor>fl64 (of_int sample_rate * duration)\<rfloor>]"
  have ax: "time_axis duration sample_rate = Inr ?t"
    using assms by (rule time_axis_returns)
  have len: "length ?t = nat \<lfloor>fl64 (of_int sample_rate * duration)\<rfloor>"
    by simp
  show ?thesis
  proof (cases fam)
    case Sine
    then have "waveform_generators lm fam frequency duration sample_rate
        = Inr (?t, map (sine_sample lm frequency) ?t)"
      by (simp add: generate_sine_def ax)
    with len show ?thesis by blast
  next
    case Square
    then have "waveform_generators lm fam frequency duration sample_rate
        = Inr (?t, map (square_sample lm frequency) ?t)"
      by (simp add: generate_square_def ax)
    with len show ?thesis by blast
  next
    case Triangle
    then have "waveform_generators lm fam frequency duration sample_rate
        = Inr (?t, map (triangle_sample lm frequency) ?t)"
      by (simp add: generate_triangle_def ax)
    with len show ?thesis by blast
  next
    case Sawtooth
    then have "waveform_generators lm fam frequency duration sample_rate
        = Inr (?t, map (sawtooth_sample frequency) ?t)"
      by (simp add: generate_sawtooth_def ax)
    with len show ?thesis by blast
  qed
qed

lemma buffer_length_floor:
  assumes "0 < duration" and "0 \<le> sample_rate"
    and "of_int sample_rate * duration \<le> pow2 1023"
  shows "buffer_length lm fam frequency duration sample_rate
    = Some (nat \<lfloor>fl64 (of_int sample_rate * duration)\<rfloor>)"
proof -
  from generators_return [OF assms, of lm fam frequency] obtain t sample
    where "length t = nat \<lfloor>fl64 (of_int sample_rate * duration)\<rfloor>"
      and "waveform_generators lm fam frequency duration sample_rate = Inr (t, map sample t)"
    by blast
  then show ?thesis by (simp add: buffer_length_def)
qed

lemma small_products:
  "(44100::real) * (3458764513820541 / 2 ^ 59) \<le> pow2 1023"
  "(44100::real) * (7860828440501229 / 2 ^ 60) \<le> pow2 1023"
  "(44100::real) * (5882252574524729 / 2 ^ 58) \<le> pow2 1023"
  "(44100::real) * (5404319552844595 / 2 ^ 55) \<le> pow2 1023"
  "(44100::real) * 5 \<le> pow2 1023"
  by (simp_all add: pow2_def)




text \<open>
  Two more previews: at 20 Hz the duration is the float 0.15 and the rounded product is
  exactly 6615; at 147 Hz the rounded product lies below 900 and the buffer has 899 samples.
\<close>

lemma preview_length_20:
  "py_truediv NUM_PERIODS_TO_PLOT (Fin 20) = Inr (Fin (5404319552844595 / 2 ^ 55)) \<and>
   plot_duration_s (Fin (5404319552844595 / 2 ^ 55)) = 5404319552844595 / 2 ^ 55 \<and>
   buffer_length lm fam (Fin 20) (5404319552844595 / 2 ^ 55) SAMPLE_RATE = Some 6615"
proof -
  have "\<bar>3 / 20 :: real\<bar> \<le> pow2 1023" by (simp add: pow2_def)
  then have "to64 (3 / 20) = Fin (fl64 (3 / 20))" by (rule to64_finite)
  then have q: "py_truediv NUM_PERIODS_TO_PLOT (Fin 20) = Inr (Fin (5404319552844595 / 2 ^ 55))"
    by (simp add: NUM_PERIODS_TO_PLOT_def fl64_3_20)
  have d: "plot_duration_s (Fin (5404319552844595 / 2 ^ 55)) = 5404319552844595 / 2 ^ 55"
    by (simp add: plot_duration_s_def fl64_milli fl64_fifth)
  have "buffer_length lm fam (Fin 20) (5404319552844595 / 2 ^ 55) 44100
      = Some (nat \<lfloor>fl64 (of_int 44100 * (5404319552844595 / 2 ^ 55))\<rfloor>)"
    using small_products(4) by (intro buffer_length_floor) simp_all
  moreover have "fl64 (of_int 44100 * (5404319552844595 / 2 ^ 55)) = 6615"
    by (simp only: of_int_numeral fl64_rate_20)
  ultimately have "buffer_length lm fam (Fin 20) (5404319552844595 / 2 ^ 55) SAMPLE_RATE = Some 6615"
    by (simp only: SAMPLE_RATE_def) simp
  with q d show ?thesis by simp
qed

lemma preview_length_147:
  "py_truediv NUM_PERIODS_TO_PLOT (Fin 147) = Inr (Fin (5882252574524729 / 2 ^ 58)) \<and>
   plot_duration_s (Fin (5882252574524729 / 2 ^ 58)) = 5882252574524729 / 2 ^ 58 \<and>
   buffer_length lm fam (Fin 147) (5882252574524729 / 2 ^ 58) SAMPLE_RATE = Some 899"
proof -
  have "\<bar>3 / 147 :: real\<bar> \<le> pow2 1023" by (simp add: pow2_def)
  then have "to64 (3 / 147) = Fin (fl64 (3 / 147))" by (rule to64_finite)
  then have q: "py_truediv NUM_PERIODS_TO_PLOT (Fin 147) = Inr (Fin (5882252574524729 / 2 ^ 58))"
    by (simp add: NUM_PERIODS_TO_PLOT_def fl64_3_147)
  have d: "plot_duration_s (Fin (5882252574524729 / 2 ^ 58)) = 5882252574524729 / 2 ^ 58"
    by (simp add: plot_duration_s_def fl64_milli fl64_fifth)
  have "buffer_length lm fam (Fin 147) (5882252574524729 / 2 ^ 58) 44100
      = Some (nat \<lfloor>fl64 (of_int 44100 * (5882252574524729 / 2 ^ 58))\<rfloor>)"
    using small_products(3) by (intro buffer_length_floor) simp_all
  moreover have "fl64 (of_int 44100 * (5882252574524729 / 2 ^ 58)) = 7916483719987199 / 2 ^ 43"
    by (simp only: of_int_numeral fl64_rate_147)
  ultimately have "buffer_length lm fam (Fin 147) (5882252574524729 / 2 ^ 58) SAMPLE_RATE = Some 899"
    by (simp only: SAMPLE_RATE_def) simp
  with q d show ?thesis by simp
qed

section \<open>The time axis is not negative and ends before four durations\<close>



section \<open>Finite phases\<close>




section \<open>The square wave\<close>












section \<open>The Play/Stop button and the preview\<close>

lemma play_buffer_returns:
  "\<exists>t w. waveform_generators lm fam frequency PLAY_DURATION_S SAMPLE_RATE = Inr (t, w)"
proof -
  have "(0::real) < PLAY_DURATION_S" "0 \<le> SAMPLE_RATE"
    "of_int SAMPLE_RATE * PLAY_DURATION_S \<le> pow2 1023"
    using small_products(5) by (simp_all add: PLAY_DURATION_S_def SAMPLE_RATE_def)
  from generators_return [OF this, of lm fam frequency] show ?thesis by blast
qed

lemma update_plot_frame:
  "\<exists>d n. update_plot_display_only lm fo wo s = s\<lparr>drawn := d, draws := n\<rparr>"
proof (cases "is_closed s \<or> \<not> fig_ax s")
  case True
  then have "update_plot_display_only lm fo wo s = s\<lparr>drawn := drawn s, draws := draws s\<rparr>"
    by (simp add: update_plot_display_only_def)
  then show ?thesis by blast
next
  case False
  show ?thesis
  proof (cases "update_plot_display_only lm fo wo s = s")
    case True
    then have "update_plot_display_only lm fo wo s = s\<lparr>drawn := drawn s, draws := draws s\<rparr>"
      by simp
    then show ?thesis by blast
  next
    case changed: False
    with False show ?thesis
      by (auto simp: update_plot_display_only_def Let_def split: sum.splits prod.splits)
  qed
qed

lemma start_session_result:
  "\<exists>d n E buf. start_session lm frequency s =
     s\<lparr>drawn := d, draws := n, events_set := E,
       audio_active := True, button_text := ''Stop'',
       stop_audio_event := Some (length (sessions s)),
       audio_thread := Some (length (sessions s)),
       sessions := sessions s @
         [\<lparr>audio_data = buf, wave_type = wave_type_var s, freq = frequency\<rparr>],
       alive := insert (length (sessions s)) (alive s)\<rparr>"
proof -
  obtain d n where s1: "update_plot_display_only lm (Some frequency) None s = s\<lparr>drawn := d, draws := n\<rparr>"
    using update_plot_frame by blast
  let ?s1 = "s\<lparr>drawn := d, draws := n\<rparr>"
  obtain E where s2: "(if live_worker ?s1 then set_stop_event ?s1 else ?s1) = ?s1\<lparr>events_set := E\<rparr>"
  proof (cases "live_worker ?s1 \<and> stop_audio_event s \<noteq> None")
    case True
    then have "(if live_worker ?s1 then set_stop_event ?s1 else ?s1)
        = ?s1\<lparr>events_set := insert (the (stop_audio_event s)) (events_set s)\<rparr>"
      by (auto simp: set_stop_event_def)
    then show ?thesis by (rule that)
  next
    case False
    then have "(if live_worker ?s1 then set_stop_event ?s1 else ?s1)
        = ?s1\<lparr>events_set := events_set s\<rparr>"
      by (auto simp: set_stop_event_def)
    then show ?thesis by (rule that)
  qed
  from play_buffer_returns [of lm "wave_type_var s" frequency]
  obtain t w where gen: "waveform_generators lm (wave_type_var s) frequency PLAY_DURATION_S SAMPLE_RATE = Inr (t, w)"
    by blast
  have "start_session lm frequency s =
     s\<lparr>drawn := d, draws := n, events_set := E,
       audio_active := True, button_text := ''Stop'',
       stop_audio_event := Some (length (sessions s)),
       audio_thread := Some (length (sessions s)),
       sessions := sessions s @
         [\<lparr>audio_data = w, wave_type = wave_type_var s, freq = frequency\<rparr>],
       alive := insert (length (sessions s)) (alive s)\<rparr>"
    unfolding start_session_def s1 s2 Let_def
    by (simp add: gen)
  then show ?thesis by blast
qed

lemma update_ui_live:
  assumes "\<not> is_closed s" "master_exists s" "audio_active s"
  shows "update_ui_after_playback_change s =
     (if live_worker s then s\<lparr>button_text := ''Stop''\<rparr>
      else s\<lparr>audio_active := False, button_text := ''Play''\<rparr>)"
  using assms by (simp add: update_ui_after_playback_change_def Let_def)

text \<open>
  C1. Stop followed by Play leaves the button on "Stop" with a new session active.
  When the worker of the superseded session ends after that and its completion
  callback runs, the callback changes nothing as long as the new worker is alive. The
  callback sets the label to "Play" exactly when the active flag is set and no worker
  thread of the current session is alive.
\<close>

theorem stale_completion_keeps_stop:
  assumes "\<not> is_closed s" and "master_exists s" and "pa s" and "audio_active s"
    and "freq_var s = Inr frequency" and "\<not> le_zero frequency"
    and "audio_thread s = Some old" and "old < length (sessions s)"
  shows "let s2 = on_play_stop_button_click lm (on_play_stop_button_click lm s);
             fresh = length (sessions s)
         in audio_active s2 \<and> button_text s2 = ''Stop'' \<and>
            audio_thread s2 = Some fresh \<and> fresh \<in> alive s2 \<and>
            update_ui_after_playback_change (s2\<lparr>alive := alive s2 - {old}\<rparr>)
              = s2\<lparr>alive := alive s2 - {old}\<rparr> \<and>
            (\<forall>A. (button_text (update_ui_after_playback_change (s2\<lparr>alive := A\<rparr>)) = ''Play'')
                   = (fresh \<notin> A))"
proof -
  define s1 where "s1 = (set_stop_event (s\<lparr>audio_active := False\<rparr>))\<lparr>button_text := ''Play''\<rparr>"
  have stop: "on_play_stop_button_click lm s = s1"
    using assms(1,3,4) by (simp add: on_play_stop_button_click_def s1_def)
  have s1_fields: "\<not> is_closed s1" "master_exists s1" "pa s1" "\<not> audio_active s1"
    "freq_var s1 = Inr frequency" "sessions s1 = sessions s"
    using assms by (simp_all add: s1_def set_stop_event_def split: option.splits)
  have play: "on_play_stop_button_click lm s1 = start_session lm frequency s1"
    using s1_fields assms(6) by (simp add: on_play_stop_button_click_def)
  obtain d n E buf where s2: "start_session lm frequency s1 =
     s1\<lparr>drawn := d, draws := n, events_set := E,
       audio_active := True, button_text := ''Stop'',
       stop_audio_event := Some (length (sessions s1)),
       audio_thread := Some (length (sessions s1)),
       sessions := sessions s1 @
         [\<lparr>audio_data = buf, wave_type = wave_type_var s1, freq = frequency\<rparr>],
       alive := insert (length (sessions s1)) (alive s1)\<rparr>"
    using start_session_result by blast
  let ?s2 = "on_play_stop_button_click lm (on_play_stop_button_click lm s)"
  let ?fresh = "length (sessions s)"
  have eq: "?s2 = start_session lm frequency s1"
    by (simp add: stop play)
  have f: "audio_active ?s2" "button_text ?s2 = ''Stop''" "audio_thread ?s2 = Some ?fresh"
    "?fresh \<in> alive ?s2" "\<not> is_closed ?s2" "master_exists ?s2"
    unfolding eq s2 using s1_fields by simp_all
  have upd: "update_ui_after_playback_change (?s2\<lparr>alive := A\<rparr>) =
      (if ?fresh \<in> A then ?s2\<lparr>alive := A\<rparr>
       else ?s2\<lparr>alive := A, audio_active := False, button_text := ''Play''\<rparr>)" for A
  proof -
    have "update_ui_after_playback_change (?s2\<lparr>alive := A\<rparr>) =
      (if live_worker (?s2\<lparr>alive := A\<rparr>) then ?s2\<lparr>alive := A, button_text := ''Stop''\<rparr>
       else ?s2\<lparr>alive := A, audio_active := False, button_text := ''Play''\<rparr>)"
      using f by (simp add: update_ui_live)
    moreover have "live_worker (?s2\<lparr>alive := A\<rparr>) = (?fresh \<in> A)"
      using f(3) by (simp add: live_worker_def)
    moreover have "?s2\<lparr>alive := A, button_text := ''Stop''\<rparr> = ?s2\<lparr>alive := A\<rparr>"
      using f(2) by simp
    ultimately show ?thesis by simp
  qed
  have "?fresh \<in> alive ?s2 - {old}"
    using f(4) assms(8) by simp
  then have stale: "update_ui_after_playback_change (?s2\<lparr>alive := alive ?s2 - {old}\<rparr>)
      = ?s2\<lparr>alive := alive ?s2 - {old}\<rparr>"
    by (simp add: upd)
  have only: "(button_text (update_ui_after_playback_change (?s2\<lparr>alive := A\<rparr>)) = ''Play'')
      = (?fresh \<notin> A)" for A
    using f(2) by (simp add: upd)
  show ?thesis
    unfolding Let_def using f(1-4) stale only by blast
qed

theorem stale_completion_keeps_stop_witness:
  "\<not> is_closed playing_app \<and> master_exists playing_app \<and> pa playing_app \<and>
   audio_active playing_app \<and> freq_var playing_app = Inr (Fin 440) \<and> \<not> le_zero (Fin 440) \<and>
   audio_thread playing_app = Some 0 \<and> 0 < length (sessions playing_app) \<and>
   (let s2 = on_play_stop_button_click example_libm (on_play_stop_button_click example_libm playing_app)
    in audio_active s2 \<and> button_text s2 = ''Stop'' \<and> audio_thread s2 = Some 1 \<and>
       update_ui_after_playback_change (s2\<lparr>alive := alive s2 - {0}\<rparr>)
         = s2\<lparr>alive := alive s2 - {0}\<rparr>)"
proof -
  have h: "\<not> is_closed playing_app" "master_exists playing_app" "pa playing_app"
    "audio_active playing_app" "freq_var playing_app = Inr (Fin 440)" "\<not> le_zero (Fin 440)"
    "audio_thread playing_app = Some 0" "0 < length (sessions playing_app)"
    by (simp_all add: playing_app_def fresh_app_def)
  have len: "length (sessions playing_app) = 1"
    by (simp add: playing_app_def fresh_app_def)
  from stale_completion_keeps_stop [OF h, of example_libm] show ?thesis
    using h unfolding Let_def len by blast
qed

text \<open>
  Play with an entry that \<^verbatim>\<open>float\<close> rejects, or whose value is \<open>\<le> 0\<close>, shows an
  input error and changes nothing else.
\<close>

lemma play_rejects_invalid:
  assumes "\<not> is_closed s" and "pa s" and "\<not> audio_active s"
    and "freq_var s = Inl e \<or> (\<exists>v. freq_var s = Inr v \<and> le_zero v)"
  shows "\<exists>msg. on_play_stop_button_click lm s = s\<lparr>errors_shown := errors_shown s @ [(''Input Error'', msg)]\<rparr>"
  using assms by (auto simp: on_play_stop_button_click_def showerror_def)

text \<open>
  C8. Play with a frequency that is not strictly positive must surface an error and
  change nothing else. With the entry \<^verbatim>\<open>nan\<close> the code does otherwise: \<open>nan <= 0\<close> is
  false, so no error is shown, a session is created, a worker is started and the button
  shows "Stop".
\<close>

theorem play_accepts_nan:
  "\<not> gt_zero NaN \<and>
   (let s = on_play_stop_button_click lm (fresh_app\<lparr>freq_var := Inr NaN\<rparr>)
    in errors_shown s = [] \<and> audio_active s \<and> button_text s = ''Stop'' \<and>
       audio_thread s = Some 0 \<and> length (sessions s) = 1 \<and> alive s = {0})"
proof -
  let ?s0 = "fresh_app\<lparr>freq_var := Inr NaN\<rparr>"
  have click: "on_play_stop_button_click lm ?s0 = start_session lm NaN ?s0"
    by (simp add: on_play_stop_button_click_def fresh_app_def)
  obtain d n E buf where "start_session lm NaN ?s0 =
     ?s0\<lparr>drawn := d, draws := n, events_set := E,
       audio_active := True, button_text := ''Stop'',
       stop_audio_event := Some (length (sessions ?s0)),
       audio_thread := Some (length (sessions ?s0)),
       sessions := sessions ?s0 @
         [\<lparr>audio_data = buf, wave_type = wave_type_var ?s0, freq = NaN\<rparr>],
       alive := insert (length (sessions ?s0)) (alive ?s0)\<rparr>"
    using start_session_result by blast
  then show ?thesis
    unfolding Let_def click by (simp add: fresh_app_def)
qed

lemma preview_440:
  "py_truediv NUM_PERIODS_TO_PLOT (Fin 440) = Inr (Fin (fl64 (3 / 440)))"
  "plot_duration_s (Fin (fl64 (3 / 440))) = fl64 (3 / 440)"
  "nat \<lfloor>fl64 (of_int SAMPLE_RATE * fl64 (3 / 440))\<rfloor> = 300"
  "0 < fl64 (3 / 440)"
  "of_int SAMPLE_RATE * fl64 (3 / 440) \<le> pow2 1023"
proof -
  have "\<bar>3 / 440 :: real\<bar> \<le> pow2 1023" by (simp add: pow2_def)
  then have "to64 (3 / 440) = Fin (fl64 (3 / 440))" by (rule to64_finite)
  then show "py_truediv NUM_PERIODS_TO_PLOT (Fin 440) = Inr (Fin (fl64 (3 / 440)))"
    by (simp add: NUM_PERIODS_TO_PLOT_def)
  show "plot_duration_s (Fin (fl64 (3 / 440))) = fl64 (3 / 440)"
    by (simp add: plot_duration_s_def fl64_milli fl64_fifth fl64_3_440)
  have "fl64 (of_int 44100 * fl64 (3 / 440)) = 5289650485627811 / 2 ^ 44"
    by (simp only: of_int_numeral fl64_3_440 fl64_rate_440)
  then show "nat \<lfloor>fl64 (of_int SAMPLE_RATE * fl64 (3 / 440))\<rfloor> = 300"
    by (simp only: SAMPLE_RATE_def) simp
  show "0 < fl64 (3 / 440)"
    by (simp add: fl64_3_440)
  show "of_int SAMPLE_RATE * fl64 (3 / 440) \<le> pow2 1023"
    using small_products(2) by (simp add: SAMPLE_RATE_def fl64_3_440)
qed

text \<open>
  C9. When the preview is updated from an entry that fails to parse or whose value is
  not strictly positive, no error is shown and the redraw is not skipped: the axes
  show the selected waveform at 440 Hz (three periods, 300 samples), and nothing but
  the drawing changes.
\<close>

theorem preview_falls_back_to_440:
  assumes "\<not> is_closed s" and "fig_ax s"
    and "freq_var s = Inl e \<or> (\<exists>v. freq_var s = Inr v \<and> \<not> gt_zero v)"
  shows "\<exists>t y. waveform_generators lm (wave_type_var s) (Fin 440) (fl64 (3 / 440)) SAMPLE_RATE
             = Inr (t, y) \<and>
           length y = 300 \<and>
           update_plot_display_only lm None None s =
             s\<lparr>drawn := Some \<lparr>plot_t = t, plot_y = y, xlim = fl64 (3 / 440)\<rparr>,
               draws := Suc (draws s)\<rparr>"
proof -
  have "0 \<le> SAMPLE_RATE" by (simp add: SAMPLE_RATE_def)
  from generators_return [OF preview_440(4) this preview_440(5), of lm "wave_type_var s" "Fin 440"]
  obtain t sample where len: "length t = nat \<lfloor>fl64 (of_int SAMPLE_RATE * fl64 (3 / 440))\<rfloor>"
    and gen: "waveform_generators lm (wave_type_var s) (Fin 440) (fl64 (3 / 440)) SAMPLE_RATE
      = Inr (t, map sample t)"
    by blast
  have l: "length (map sample t) = 300"
    using len by (simp only: preview_440(3) length_map)
  have fr: "(case freq_var s of Inl _ \<Rightarrow> Fin 440
             | Inr temp_freq \<Rightarrow> if gt_zero temp_freq then temp_freq else Fin 440) = Fin 440"
    using assms(3) by auto
  have "update_plot_display_only lm None None s =
             s\<lparr>drawn := Some \<lparr>plot_t = t, plot_y = map sample t, xlim = fl64 (3 / 440)\<rparr>,
               draws := Suc (draws s)\<rparr>"
    using assms(1,2)
    by (simp add: update_plot_display_only_def Let_def fr preview_440(1,2) gen
        del: py_truediv.simps)
  with gen l show ?thesis by blast
qed

theorem preview_falls_back_to_440_witness:
  "\<not> is_closed (fresh_app\<lparr>freq_var := Inl ValueError\<rparr>) \<and>
   fig_ax (fresh_app\<lparr>freq_var := Inl ValueError\<rparr>) \<and>
   freq_var (fresh_app\<lparr>freq_var := Inl ValueError\<rparr>) = Inl ValueError \<and>
   (\<exists>t y. waveform_generators example_libm Sine (Fin 440) (fl64 (3 / 440)) SAMPLE_RATE
       = Inr (t, y) \<and> length y = 300 \<and>
      update_plot_display_only example_libm None None (fresh_app\<lparr>freq_var := Inl ValueError\<rparr>) =
        fresh_app\<lparr>freq_var := Inl ValueError,
          drawn := Some \<lparr>plot_t = t, plot_y = y, xlim = fl64 (3 / 440)\<rparr>, draws := 1\<rparr>)"
proof -
  let ?s = "fresh_app\<lparr>freq_var := Inl ValueError\<rparr>"
  have h: "\<not> is_closed ?s" "fig_ax ?s"
    "freq_var ?s = Inl ValueError \<or> (\<exists>v. freq_var ?s = Inr v \<and> \<not> gt_zero v)"
    by (simp_all add: fresh_app_def)
  have w: "wave_type_var ?s = Sine" "draws ?s = 0" "freq_var ?s = Inl ValueError"
    by (simp_all add: fresh_app_def)
  from preview_falls_back_to_440 [OF h, of example_libm] show ?thesis
    using h(1,2) unfolding w by auto
qed

section \<open>The worker thread\<close>

lemma chunk_starts_one: "chunk_starts (Suc 0) = [0]"
  by (simp add: chunk_starts_def FRAMES_PER_BUFFER_def)

lemma chunk_at_one: "chunk_at [x] 0 = [x]"
  by (simp add: chunk_at_def FRAMES_PER_BUFFER_def)

lemma stream_loop_writes:
  "\<exists>ws. fst (stream_loop e data j starts) = map Write ws"
proof (induction starts arbitrary: j)
  case Nil
  then show ?case by simp
next
  case (Cons i rest)
  from Cons.IH [of "Suc j"] obtain ws
    where ws: "fst (stream_loop e data (Suc j) rest) = map Write ws"
    by blast
  have nil: "[] = map Write []" by simp
  have one: "[Write c] = map Write [c]" for c by simp
  have step: "Write c # map Write ws = map Write (c # ws)" for c by simp
  show ?case
    using ws nil one step
    by (auto simp: split_def simp del: list.map split: prod.splits) 
qed

lemma written_of_map_Write: "written_of (map Write ws) = ws"
  by (induction ws) simp_all

lemma written_of_append: "written_of (xs @ ys) = written_of xs @ written_of ys"
  by (induction xs rule: written_of.induct) simp_all

lemma written_of_release: "written_of (release_stream e) = []"
  by (simp add: release_stream_def split: option.splits bool.splits)

lemma stream_loop_cong:
  assumes "\<forall>k. stop_is_set e1 k = stop_is_set e2 k"
    and "\<forall>k. audio_active (ui e1 k) = audio_active (ui e2 k)"
    and "\<forall>j. write_raises e1 j = write_raises e2 j"
  shows "stream_loop e1 data j starts = stream_loop e2 data j starts"
  using assms by (induction starts arbitrary: j) simp_all

lemma written_worker:
  "written (play_audio_thread_target e data) = written_of (snd (worker_body e data))"
  by (simp add: written_def play_audio_thread_target_def written_of_append written_of_release
      split: prod.splits)

text \<open>
  C2 (amended). On every exit path the worker makes no device call after the last
  write other than the release of a stream it opened: it asks \<open>is_active\<close>, stops the
  stream when that answers true, and closes it (the close is reached whenever
  \<open>is_active\<close> and \<open>stop_stream\<close> return). It then schedules the completion callback on
  the event loop exactly once when the application is not closed and its window
  exists, and not at all otherwise.
\<close>

theorem worker_releases_and_notifies:
  "\<exists>ws. calls (play_audio_thread_target e data) =
          (if stream_opened e then Open # map Write ws @ release_stream e
           else if \<not> stop_is_set e 0 \<and> audio_active (ui e 0) \<and> pa (ui e 0) then [Open]
           else []) \<and>
        hd (release_stream e) = IsActive \<and>
        (is_active_result e = Some False \<longrightarrow> release_stream e = [IsActive, Close]) \<and>
        (is_active_result e = Some True \<and> \<not> stop_raises e \<longrightarrow>
           release_stream e = [IsActive, StopStream, Close]) \<and>
        scheduled (play_audio_thread_target e data) =
          (if \<not> is_closed (ui_exit e) \<and> master_exists (ui_exit e) then 1 else 0)"
proof -
  obtain ws where ws: "fst (stream_loop e data 0 (chunk_starts (length data))) = map Write ws"
    using stream_loop_writes by blast
  have "calls (play_audio_thread_target e data) =
          (if stream_opened e then Open # map Write ws @ release_stream e
           else if \<not> stop_is_set e 0 \<and> audio_active (ui e 0) \<and> pa (ui e 0) then [Open]
           else [])"
    by (simp add: play_audio_thread_target_def worker_body_def stream_opened_def ws)
  moreover have "scheduled (play_audio_thread_target e data) =
          (if \<not> is_closed (ui_exit e) \<and> master_exists (ui_exit e) then 1 else 0)"
    by (simp add: play_audio_thread_target_def split: prod.splits)
  moreover have "hd (release_stream e) = IsActive"
    by (simp add: release_stream_def)
  moreover have "is_active_result e = Some False \<longrightarrow> release_stream e = [IsActive, Close]"
    by (simp add: release_stream_def)
  moreover have "is_active_result e = Some True \<and> \<not> stop_raises e \<longrightarrow>
           release_stream e = [IsActive, StopStream, Close]"
    by (simp add: release_stream_def)
  ultimately show ?thesis by blast
qed

theorem worker_releases_and_notifies_witness:
  "is_active_result (quiet_env playing_app) = Some True \<and> \<not> stop_raises (quiet_env playing_app) \<and>
   release_stream (quiet_env playing_app) = [IsActive, StopStream, Close] \<and>
   scheduled (play_audio_thread_target (quiet_env playing_app) [Fin 0]) = 1"
proof -
  have h: "is_active_result (quiet_env playing_app) = Some True \<and> \<not> stop_raises (quiet_env playing_app)"
    by (simp add: quiet_env_def)
  have u: "\<not> is_closed (ui_exit (quiet_env playing_app)) \<and> master_exists (ui_exit (quiet_env playing_app))"
    by (simp add: quiet_env_def playing_app_def fresh_app_def)
  from worker_releases_and_notifies [of "quiet_env playing_app" "[Fin 0]"] h u
  show ?thesis by auto
qed

text \<open>
  A worker that plays its buffer to the end and finds the application closed releases
  the stream and schedules no callback.
\<close>

theorem done_not_scheduled_after_close:
  "stream_opened late_env \<and>
   calls (play_audio_thread_target late_env [Fin 0]) =
     [Open, Write [Fin 0], IsActive, StopStream, Close] \<and>
   scheduled (play_audio_thread_target late_env [Fin 0]) = 0"
  by (simp add: play_audio_thread_target_def worker_body_def stream_opened_def late_env_def
      quiet_env_def playing_app_def fresh_app_def chunk_starts_one chunk_at_one release_stream_def)

text \<open>
  C3 (amended). The chunks the worker writes are determined by the buffer, the
  results of the device, and three things it reads from shared state: the stop event
  and the flag \<open>audio_active\<close> at each poll, and \<open>pa\<close> before the stream is opened. Two
  runs that agree on these write the same chunks, whatever else differs in the state
  of the application.
\<close>

theorem worker_writes_determined:
  assumes "\<forall>k. stop_is_set e1 k = stop_is_set e2 k"
    and "\<forall>k. audio_active (ui e1 k) = audio_active (ui e2 k)"
    and "pa (ui e1 0) = pa (ui e2 0)"
    and "open_raises e1 = open_raises e2"
    and "\<forall>j. write_raises e1 j = write_raises e2 j"
  shows "written (play_audio_thread_target e1 data) = written (play_audio_thread_target e2 data)"
proof -
  have "stream_loop e1 data 0 (chunk_starts (length data))
      = stream_loop e2 data 0 (chunk_starts (length data))"
    using assms(1,2,5) by (rule stream_loop_cong)
  then have "worker_body e1 data = worker_body e2 data"
    using assms(1-4) by (simp add: worker_body_def)
  then show ?thesis
    by (simp add: written_worker)
qed

theorem worker_writes_determined_witness:
  "written (play_audio_thread_target (quiet_env playing_app) [Fin 0]) =
   written (play_audio_thread_target (quiet_env (playing_app\<lparr>button_text := ''Play'', is_closed := True\<rparr>)) [Fin 0])"
proof -
  let ?e1 = "quiet_env playing_app"
  let ?e2 = "quiet_env (playing_app\<lparr>button_text := ''Play'', is_closed := True\<rparr>)"
  have h: "\<forall>k. stop_is_set ?e1 k = stop_is_set ?e2 k"
    "\<forall>k. audio_active (ui ?e1 k) = audio_active (ui ?e2 k)"
    "pa (ui ?e1 0) = pa (ui ?e2 0)"
    "open_raises ?e1 = open_raises ?e2"
    "\<forall>j. write_raises ?e1 j = write_raises ?e2 j"
    by (simp_all add: quiet_env_def)
  show ?thesis by (rule worker_writes_determined [OF h])
qed

text \<open>
  Two runs with the same observations of the stop event (never set) that differ in
  \<open>audio_active\<close> alone: one writes the chunk, the other does not.
\<close>

theorem audio_active_changes_writes:
  "stop_is_set (quiet_env playing_app) = stop_is_set racing_env \<and>
   written (play_audio_thread_target (quiet_env playing_app) [Fin 0]) = [[Fin 0]] \<and>
   written (play_audio_thread_target racing_env [Fin 0]) = []"
  by (simp add: written_worker worker_body_def racing_env_def
      quiet_env_def playing_app_def fresh_app_def chunk_starts_one chunk_at_one)

section \<open>The rectangles of the simple function\<close>




end
